theory Spec2Isabelle
  imports Main "HOL-Library.Multiset"
begin

section \<open>The play registry: data model\<close>

text \<open>
  The registry of \<^verbatim>\<open>soccer/gameplay2/play_registry.py\<close> is a tree of
  \<^verbatim>\<open>PlayRegistry.Category\<close> and \<^verbatim>\<open>PlayRegistry.Node\<close> objects below one root
  category. Every object of the tree is created by \<^verbatim>\<open>insert\<close> and appended to exactly one
  list of children, so the object graph is a tree and is modelled by a datatype. The
  \<^verbatim>\<open>_parent\<close> back reference of an object is the category whose list holds it; it is not
  stored a second time. An object reference (a \<^verbatim>\<open>QModelIndex\<close>'s internal pointer) is the
  list of rows that leads from the root to the object.
\<close>

text \<open>The Python exceptions the module can raise.\<close>

datatype error = KeyError | TypeError | AttributeError | IndexError | AssertionError

text \<open>
  A play class is an opaque Python class object. The module reads its \<^verbatim>\<open>__name__\<close> and
  compares it with \<^verbatim>\<open>==\<close>, which for class objects is object identity.
\<close>

record pyclass =
  class_id :: nat
  class_name :: string

definition class_eq :: "pyclass \<Rightarrow> pyclass \<Rightarrow> bool" where
  "class_eq a b = (class_id a = class_id b)"

text \<open>
  An object of the tree: a \<^verbatim>\<open>Node\<close> with its \<^verbatim>\<open>_module_name\<close>, \<^verbatim>\<open>_play_class\<close> and
  \<^verbatim>\<open>_enabled\<close>, or a \<^verbatim>\<open>Category\<close> with its \<^verbatim>\<open>_name\<close> and its \<^verbatim>\<open>_children\<close> in the order
  they were appended.
\<close>

datatype node =
    Node (node_module_name: string) (play_class: pyclass) (enabled: bool)
  | Category string "node list"

text \<open>\<^verbatim>\<open>Node.__init__\<close>: a new leaf is enabled.\<close>

definition Node_init :: "string \<Rightarrow> pyclass \<Rightarrow> node" where
  "Node_init m c = Node m c True"

text \<open>\<^verbatim>\<open>Category.__init__\<close>: a new category has no children.\<close>

definition Category_init :: "string \<Rightarrow> node" where
  "Category_init n = Category n []"

text \<open>\<^verbatim>\<open>isinstance(child, PlayRegistry.Node)\<close>\<close>

fun isinstance_Node :: "node \<Rightarrow> bool" where
  "isinstance_Node (Node m c e) = True"
| "isinstance_Node (Category n cs) = False"

text \<open>
  The \<^verbatim>\<open>name\<close> property: \<^verbatim>\<open>play_class.__name__\<close> for a \<^verbatim>\<open>Node\<close>, \<^verbatim>\<open>_name\<close> for a
  \<^verbatim>\<open>Category\<close>.
\<close>

fun name :: "node \<Rightarrow> string" where
  "name (Node m c e) = class_name c"
| "name (Category n cs) = n"

subsection \<open>Category: child lookup\<close>

text \<open>
  \<^verbatim>\<open>Category.__getitem__\<close>: the loop over \<^verbatim>\<open>self.children\<close> returns the first child whose
  name is the key, and \<^verbatim>\<open>None\<close> after the loop.
\<close>

fun getitem_loop :: "node list \<Rightarrow> string \<Rightarrow> node option" where
  "getitem_loop [] key = None"
| "getitem_loop (child # rest) key =
     (if name child = key then Some child else getitem_loop rest key)"

text \<open>
  \<^verbatim>\<open>obj[key]\<close>. Only \<^verbatim>\<open>Category\<close> defines \<^verbatim>\<open>__getitem__\<close>; subscripting a \<^verbatim>\<open>Node\<close>
  raises \<^verbatim>\<open>TypeError\<close>.
\<close>

fun getitem :: "node \<Rightarrow> string \<Rightarrow> error + node option" where
  "getitem (Category n cs) key = Inr (getitem_loop cs key)"
| "getitem (Node m c e) key = Inl TypeError"

text \<open>
  \<^verbatim>\<open>Category.has_child_with_name\<close>: \<^verbatim>\<open>self[name] != None\<close>. No class of the module
  defines \<^verbatim>\<open>__ne__\<close>, so a child object is always unequal to \<^verbatim>\<open>None\<close>.
\<close>

fun has_child_with_name :: "node \<Rightarrow> string \<Rightarrow> error + bool" where
  "has_child_with_name (Category n cs) key = Inr (getitem_loop cs key \<noteq> None)"
| "has_child_with_name (Node m c e) key = Inl AttributeError"

text \<open>The row of the child that \<^verbatim>\<open>__getitem__\<close> returns: the reference to that object.\<close>

fun index_of_child :: "node list \<Rightarrow> string \<Rightarrow> nat option" where
  "index_of_child [] key = None"
| "index_of_child (child # rest) key =
     (if name child = key then Some 0 else map_option Suc (index_of_child rest key))"


subsection \<open>Python list operations\<close>

text \<open>
  \<^verbatim>\<open>xs[i]\<close> with Python's negative indices; out of range raises \<^verbatim>\<open>IndexError\<close>.
  \<^verbatim>\<open>xs[:-1]\<close> is \<^const>\<open>butlast\<close> (the empty list stays empty).
\<close>

definition py_index :: "'a list \<Rightarrow> int \<Rightarrow> error + 'a" where
  "py_index xs i =
     (if 0 \<le> i \<and> i < int (length xs) then Inr (xs ! nat i)
      else if i < 0 \<and> - int (length xs) \<le> i then Inr (xs ! nat (int (length xs) + i))
      else Inl IndexError)"

subsection \<open>The registry and its root\<close>

text \<open>
  A \<^verbatim>\<open>QModelIndex\<close> of the GUI toolkit: validity, row, column and the internal pointer
  given to \<^verbatim>\<open>createIndex\<close> (\<open>None\<close> is Python's \<^verbatim>\<open>None\<close>).
\<close>

type_synonym ref = "nat list"

record QModelIndex =
  isValid :: bool
  row :: nat
  column :: nat
  internalPointer :: "ref option"

text \<open>The item data roles of the toolkit that the module names.\<close>

datatype role = DisplayRole | EditRole | CheckStateRole | OtherRole nat

text \<open>
  The registry object: its root category and the \<^verbatim>\<open>dataChanged\<close> signals it has emitted,
  oldest first.
\<close>

record PlayRegistry =
  root :: node
  dataChanged :: "(QModelIndex \<times> QModelIndex) list"

text \<open>\<^verbatim>\<open>PlayRegistry.__init__\<close>\<close>

definition PlayRegistry_init :: PlayRegistry where
  "PlayRegistry_init = \<lparr>root = Category_init '''', dataChanged = []\<rparr>"

text \<open>The object a reference points to.\<close>

fun node_at :: "node \<Rightarrow> ref \<Rightarrow> node option" where
  "node_at t [] = Some t"
| "node_at (Category n cs) (i # r) = (if i < length cs then node_at (cs ! i) r else None)"
| "node_at (Node m c e) (i # r) = None"

text \<open>An assignment to an attribute of the referenced object.\<close>

fun update_at :: "ref \<Rightarrow> (node \<Rightarrow> node) \<Rightarrow> node \<Rightarrow> node" where
  "update_at [] f t = f t"
| "update_at (i # r) f (Category n cs) =
     (if i < length cs then Category n (cs[i := update_at r f (cs ! i)]) else Category n cs)"
| "update_at (i # r) f (Node m c e) = Node m c e"

subsection \<open>insert\<close>

text \<open>
  \<^verbatim>\<open>Category.appendChild\<close>; a \<^verbatim>\<open>Node\<close> has no such method.
\<close>

fun appendChild :: "node \<Rightarrow> node \<Rightarrow> error + node" where
  "appendChild (Category n cs) child = Inr (Category n (cs @ [child]))"
| "appendChild (Node m c e) child = Inl AttributeError"

text \<open>
  \<^verbatim>\<open>module in category.children\<close> compares the string \<^verbatim>\<open>module\<close> with every child
  object by \<^verbatim>\<open>==\<close>. Neither \<^verbatim>\<open>Category\<close> nor \<^verbatim>\<open>Node\<close> defines \<^verbatim>\<open>__eq__\<close>, so a string
  and a child object compare by identity and are never equal.
\<close>

definition str_eq_node :: "string \<Rightarrow> node \<Rightarrow> bool" where
  "str_eq_node s child = False"

definition str_in_children :: "string \<Rightarrow> node list \<Rightarrow> bool" where
  "str_in_children s cs = list_ex (str_eq_node s) cs"

text \<open>
  The loop of \<^verbatim>\<open>insert\<close> over \<^verbatim>\<open>module_path[:-1]\<close> from the current category, followed
  by the \<^verbatim>\<open>appendChild\<close> of the new play node. The result is the error raised, if any,
  and the current category as the call leaves it (what was appended before an error
  stays). \<^verbatim>\<open>category = category[module]\<close> continues in the child that \<^verbatim>\<open>__getitem__\<close>
  returns, here the child at its row; were it \<^verbatim>\<open>None\<close>, the next attribute access would
  raise \<^verbatim>\<open>AttributeError\<close>, as it does on a \<^verbatim>\<open>Node\<close>.
\<close>

fun insert_loop :: "string list \<Rightarrow> node \<Rightarrow> node \<Rightarrow> error option \<times> node" where
  "insert_loop [] playNode category =
     (case appendChild category playNode of
        Inl e \<Rightarrow> (Some e, category)
      | Inr category' \<Rightarrow> (None, category'))"
| "insert_loop (module # rest) playNode (Node m c e) = (Some AttributeError, Node m c e)"
| "insert_loop (module # rest) playNode (Category n cs) =
     (let cs' = (if \<not> str_in_children module cs then cs @ [Category_init module] else cs) in
      case index_of_child cs' module of
        None \<Rightarrow> (Some AttributeError, Category n cs')
      | Some i \<Rightarrow>
          (case insert_loop rest playNode (cs' ! i) of
             (err, child') \<Rightarrow> (err, Category n (cs'[i := child']))))"

text \<open>
  \<^verbatim>\<open>PlayRegistry.insert\<close>. \<^verbatim>\<open>module_path[-1]\<close> raises \<^verbatim>\<open>IndexError\<close> for the empty path,
  whose loop has no iteration; for any other path it cannot fail, so reading it before the
  loop changes nothing.
\<close>

definition insert_play :: "string list \<Rightarrow> pyclass \<Rightarrow> PlayRegistry \<Rightarrow> error option \<times> PlayRegistry" where
  "insert_play module_path cls self =
     (case py_index module_path (- 1) of
        Inl e \<Rightarrow> (Some e, self)
      | Inr last_module \<Rightarrow>
          (case insert_loop (butlast module_path) (Node_init last_module cls) (root self) of
             (err, root') \<Rightarrow> (err, self\<lparr>root := root'\<rparr>)))"

subsection \<open>delete\<close>

text \<open>
  \<^verbatim>\<open>Category.__del__(self, name)\<close> as written: it removes the first child of that name
  from the list and raises \<^verbatim>\<open>KeyError\<close> when there is none.
\<close>

fun Category_del :: "node list \<Rightarrow> string \<Rightarrow> error + node list" where
  "Category_del [] key = Inl KeyError"
| "Category_del (child # rest) key =
     (if name child = key then Inr rest
      else (case Category_del rest key of Inl e \<Rightarrow> Inl e | Inr rest' \<Rightarrow> Inr (child # rest')))"

text \<open>
  The statement \<^verbatim>\<open>del obj[key]\<close> calls \<^verbatim>\<open>type(obj).__delitem__\<close>. \<^verbatim>\<open>__del__\<close> is the
  finaliser hook and is not looked up by the statement, and no class of the module defines
  \<^verbatim>\<open>__delitem__\<close>: for a \<^verbatim>\<open>Category\<close>, a \<^verbatim>\<open>Node\<close> and \<^verbatim>\<open>None\<close> alike the statement raises
  \<^verbatim>\<open>TypeError\<close> (object does not support item deletion) and removes nothing. The result
  is the error or the root after the deletion.
\<close>

fun delitem :: "node \<Rightarrow> ref option \<Rightarrow> string \<Rightarrow> error + node" where
  "delitem rt None key = Inl TypeError"
| "delitem rt (Some r) key =
     (case node_at rt r of
        Some (Category n cs) \<Rightarrow> Inl TypeError
      | Some (Node m c e) \<Rightarrow> Inl TypeError
      | None \<Rightarrow> Inl TypeError)"

text \<open>
  \<^verbatim>\<open>obj[key]\<close> for an object of the category stack, which holds references (or \<^verbatim>\<open>None\<close>):
  \<^verbatim>\<open>Category.__getitem__\<close> for a category, \<^verbatim>\<open>TypeError\<close> (not subscriptable) otherwise.
\<close>

fun stack_getitem :: "node \<Rightarrow> ref option \<Rightarrow> string \<Rightarrow> error + ref option" where
  "stack_getitem rt None key = Inl TypeError"
| "stack_getitem rt (Some r) key =
     (case node_at rt r of
        Some (Category n cs) \<Rightarrow> Inr (map_option (\<lambda>i. r @ [i]) (index_of_child cs key))
      | Some (Node m c e) \<Rightarrow> Inl TypeError
      | None \<Rightarrow> Inl TypeError)"

text \<open>\<^verbatim>\<open>len(category.children)\<close> for an object of the category stack.\<close>

fun len_children :: "node \<Rightarrow> ref option \<Rightarrow> error + nat" where
  "len_children rt None = Inl AttributeError"
| "len_children rt (Some r) =
     (case node_at rt r of
        Some (Category n cs) \<Rightarrow> Inr (length cs)
      | Some (Node m c e) \<Rightarrow> Inl AttributeError
      | None \<Rightarrow> Inl AttributeError)"

text \<open>The first loop of \<^verbatim>\<open>delete\<close>: \<^verbatim>\<open>catStack.append(catStack[-1][module])\<close>.\<close>

fun delete_walk :: "node \<Rightarrow> string list \<Rightarrow> ref option list \<Rightarrow> error + ref option list" where
  "delete_walk rt [] catStack = Inr catStack"
| "delete_walk rt (module # rest) catStack =
     (case py_index catStack (- 1) of
        Inl e \<Rightarrow> Inl e
      | Inr cur \<Rightarrow>
          (case stack_getitem rt cur module of
             Inl e \<Rightarrow> Inl e
           | Inr child \<Rightarrow> delete_walk rt rest (catStack @ [child])))"

text \<open>
  The second loop of \<^verbatim>\<open>delete\<close>, over \<^verbatim>\<open>enumerate(catStack[:-1])\<close> of the reversed stack:
  \<^verbatim>\<open>del catStack[idx+1][module_path[-2 - idx]]\<close> for every empty category.
\<close>

fun delete_prune ::
  "(nat \<times> ref option) list \<Rightarrow> ref option list \<Rightarrow> string list \<Rightarrow> node \<Rightarrow> error option \<times> node" where
  "delete_prune [] catStack module_path rt = (None, rt)"
| "delete_prune ((idx, category) # rest) catStack module_path rt =
     (case len_children rt category of
        Inl e \<Rightarrow> (Some e, rt)
      | Inr n \<Rightarrow>
          (if n = 0 then
             (case py_index catStack (int idx + 1) of
                Inl e \<Rightarrow> (Some e, rt)
              | Inr owner \<Rightarrow>
                  (case py_index module_path (- 2 - int idx) of
                     Inl e \<Rightarrow> (Some e, rt)
                   | Inr key \<Rightarrow>
                       (case delitem rt owner key of
                          Inl e \<Rightarrow> (Some e, rt)
                        | Inr rt' \<Rightarrow> delete_prune rest catStack module_path rt')))
           else delete_prune rest catStack module_path rt))"

text \<open>The body of the \<^verbatim>\<open>try\<close> block of \<^verbatim>\<open>delete\<close>.\<close>

definition delete_try :: "string list \<Rightarrow> pyclass \<Rightarrow> node \<Rightarrow> error option \<times> node" where
  "delete_try module_path cls rt =
     (case delete_walk rt (butlast module_path) [Some []] of
        Inl e \<Rightarrow> (Some e, rt)
      | Inr catStack \<Rightarrow>
          (case py_index catStack (- 1) of
             Inl e \<Rightarrow> (Some e, rt)
           | Inr bottom \<Rightarrow>
               (case delitem rt bottom (class_name cls) of
                  Inl e \<Rightarrow> (Some e, rt)
                | Inr rt' \<Rightarrow>
                    delete_prune (enumerate 0 (butlast (rev catStack))) (rev catStack)
                      module_path rt')))"

text \<open>
  \<^verbatim>\<open>PlayRegistry.delete\<close>: the handler catches \<^verbatim>\<open>KeyError\<close> only and raises a new
  \<^verbatim>\<open>KeyError\<close>; every other exception leaves the method as it is.
\<close>

definition delete :: "string list \<Rightarrow> pyclass \<Rightarrow> PlayRegistry \<Rightarrow> error option \<times> PlayRegistry" where
  "delete module_path cls self =
     (case delete_try module_path cls (root self) of
        (None, rt') \<Rightarrow> (None, self\<lparr>root := rt'\<rparr>)
      | (Some e, rt') \<Rightarrow>
          ((if e = KeyError then Some KeyError else Some e), self\<lparr>root := rt'\<rparr>))"

subsection \<open>Iteration and the queries built on it\<close>

text \<open>
  \<^verbatim>\<open>category.children()\<close>: \<^verbatim>\<open>children\<close> is a property, so \<^verbatim>\<open>category.children\<close> is
  already the list, and the parentheses call that list. A list is not callable: the call
  raises \<^verbatim>\<open>TypeError\<close>, whatever the list holds.
\<close>

definition call_list :: "node list \<Rightarrow> error + node list" where
  "call_list xs = Inl TypeError"

text \<open>
  The generator \<^verbatim>\<open>_recursive_iter\<close>: the nodes it yields, in order, and the exception
  that ends it, if one does. On a \<^verbatim>\<open>Node\<close> the attribute \<^verbatim>\<open>children\<close> does not exist.
\<close>

function recursive_iter :: "node \<Rightarrow> node list \<times> error option"
  and recursive_iter_loop :: "node list \<Rightarrow> node list \<times> error option" where
  "recursive_iter (Node m c e) = ([], Some AttributeError)"
| "recursive_iter (Category n cs) =
     (case call_list cs of
        Inl e \<Rightarrow> ([], Some e)
      | Inr xs \<Rightarrow> recursive_iter_loop xs)"
| "recursive_iter_loop [] = ([], None)"
| "recursive_iter_loop (child # rest) =
     (if isinstance_Node child then
        (case recursive_iter_loop rest of (ys, err) \<Rightarrow> (child # ys, err))
      else
        (case recursive_iter child of
           (ys, Some e) \<Rightarrow> (ys, Some e)
         | (ys, None) \<Rightarrow> (case recursive_iter_loop rest of (zs, err) \<Rightarrow> (ys @ zs, err))))"
  by pat_completeness auto
termination
  by (relation "measure (\<lambda>x. case x of Inl t \<Rightarrow> size t | Inr ts \<Rightarrow> size_list size ts)")
    (auto simp: call_list_def)

text \<open>\<^verbatim>\<open>PlayRegistry.__iter__\<close>\<close>

definition iteration :: "PlayRegistry \<Rightarrow> node list \<times> error option" where
  "iteration self = recursive_iter (root self)"

text \<open>
  \<^verbatim>\<open>PlayRegistry.get_enabled_plays\<close>: the list comprehension over \<^verbatim>\<open>self\<close>; an exception
  of the generator leaves the comprehension.
\<close>

definition get_enabled_plays :: "PlayRegistry \<Rightarrow> error + pyclass list" where
  "get_enabled_plays self =
     (case iteration self of
        (ys, Some e) \<Rightarrow> Inl e
      | (ys, None) \<Rightarrow> Inr (map play_class (filter enabled ys)))"

text \<open>
  \<^verbatim>\<open>PlayRegistry.__contains__\<close>: the loop returns at the first yielded node whose play
  class is the argument; an exception of the generator is raised when no earlier node
  matched.
\<close>

fun contains_loop :: "node list \<Rightarrow> pyclass \<Rightarrow> bool" where
  "contains_loop [] cls = False"
| "contains_loop (nd # rest) cls =
     (if class_eq (play_class nd) cls then True else contains_loop rest cls)"

definition contains :: "PlayRegistry \<Rightarrow> pyclass \<Rightarrow> error + bool" where
  "contains self cls =
     (case iteration self of
        (ys, err) \<Rightarrow>
          (if contains_loop ys cls then Inr True
           else (case err of Some e \<Rightarrow> Inl e | None \<Rightarrow> Inr False)))"

subsection \<open>The string form\<close>

abbreviation newline :: string where
  "newline \<equiv> [CHR 0x0A]"

text \<open>\<^verbatim>\<open>"    " * indent\<close>\<close>

definition indent_str :: "nat \<Rightarrow> string" where
  "indent_str indent = concat (replicate indent ''    '')"

text \<open>\<^verbatim>\<open>Node.__str__\<close>, of a \<^verbatim>\<open>Node\<close> object.\<close>

definition Node_str :: "node \<Rightarrow> string" where
  "Node_str nd =
     class_name (play_class nd) @ '' '' @ (if enabled nd then ''[ENABLED]'' else ''[DISABLED]'')"

text \<open>
  \<^verbatim>\<open>_cat_str(category, indent)\<close> and its loop over \<^verbatim>\<open>category.children\<close> with the string
  \<^verbatim>\<open>desc\<close> built so far; \<^verbatim>\<open>desc[:-1]\<close> drops the last character.
\<close>

fun cat_str :: "node \<Rightarrow> nat \<Rightarrow> error + string"
  and cat_str_loop :: "node list \<Rightarrow> nat \<Rightarrow> string \<Rightarrow> error + string" where
  "cat_str (Node m c e) indent = Inl AttributeError"
| "cat_str (Category n cs) indent =
     (case cat_str_loop cs indent [] of
        Inl e \<Rightarrow> Inl e
      | Inr desc \<Rightarrow> Inr (butlast desc))"
| "cat_str_loop [] indent desc = Inr desc"
| "cat_str_loop (child # rest) indent desc =
     (if isinstance_Node child then
        cat_str_loop rest indent (desc @ indent_str indent @ Node_str child @ newline)
      else
        (case cat_str child (indent + 1) of
           Inl e \<Rightarrow> Inl e
         | Inr sub \<Rightarrow>
             cat_str_loop rest indent
               (desc @ indent_str indent @ name child @ '':'' @ newline @ sub @ newline)))"

text \<open>\<^verbatim>\<open>PlayRegistry.__str__\<close>\<close>

definition PlayRegistry_str :: "PlayRegistry \<Rightarrow> error + string" where
  "PlayRegistry_str self =
     (case cat_str (root self) 0 of
        Inl e \<Rightarrow> Inl e
      | Inr body \<Rightarrow> Inr (''PlayRegistry:'' @ newline @ ''-------------'' @ newline @ body))"

subsection \<open>The item model: setData\<close>

text \<open>\<^verbatim>\<open>playNode.enabled = not playNode.enabled\<close>\<close>

fun toggle_enabled :: "node \<Rightarrow> node" where
  "toggle_enabled (Node m c e) = Node m c (\<not> e)"
| "toggle_enabled (Category n cs) = Category n cs"

text \<open>
  \<^verbatim>\<open>PlayRegistry.setData\<close>: the value returned or the exception raised, and the registry
  afterwards. An internal pointer that is no \<^verbatim>\<open>Node\<close> object (a category, or \<^verbatim>\<open>None\<close>)
  fails the \<^verbatim>\<open>isinstance\<close> test. An index made by \<^verbatim>\<open>index\<close> points to an object of the
  tree; a list of rows that leads to no object stands for no object and is treated like
  \<^verbatim>\<open>None\<close>. \<^verbatim>\<open>dataChanged.emit(index, index)\<close> appends the pair to the emitted signals.
\<close>

definition setData ::
  "QModelIndex \<Rightarrow> 'v \<Rightarrow> role \<Rightarrow> PlayRegistry \<Rightarrow> (error + bool) \<times> PlayRegistry" where
  "setData index val rl self =
     (if rl = CheckStateRole then
        (if isValid index then
           (case internalPointer index of
              None \<Rightarrow> (Inl AssertionError, self)
            | Some r \<Rightarrow>
                (case node_at (root self) r of
                   Some (Node m c e) \<Rightarrow>
                     (Inr True,
                      self\<lparr>root := update_at r toggle_enabled (root self),
                           dataChanged := dataChanged self @ [(index, index)]\<rparr>)
                 | Some (Category n cs) \<Rightarrow> (Inl AssertionError, self)
                 | None \<Rightarrow> (Inl AssertionError, self)))
         else (Inr False, self))
      else (Inr False, self))"

section \<open>Notions used to state the properties\<close>

text \<open>
  The leaves below a node in depth-first order, every list of children taken from its
  first element to its last. This is not a function of the module.
\<close>

fun leaves :: "node \<Rightarrow> node list" and leaves_list :: "node list \<Rightarrow> node list" where
  "leaves (Node m c e) = [Node m c e]"
| "leaves (Category n cs) = leaves_list cs"
| "leaves_list [] = []"
| "leaves_list (child # rest) = leaves child @ leaves_list rest"

text \<open>
  The dump as the specification words it: the entries of a category's children, separated
  by newlines. A leaf's entry is the indentation and its display name followed by
  \<open>[ENABLED]\<close> or \<open>[DISABLED]\<close>; a sub-category's entry is the indentation, its name and
  a colon, followed on the next line by its own children at the next depth.
\<close>

fun join_lines :: "string list \<Rightarrow> string" where
  "join_lines [] = []"
| "join_lines [l] = l"
| "join_lines (l # l' # ls) = l @ newline @ join_lines (l' # ls)"

fun spec_entry :: "nat \<Rightarrow> node \<Rightarrow> string"
  and spec_entries :: "nat \<Rightarrow> node list \<Rightarrow> string list" where
  "spec_entry d (Node m c e) =
     concat (replicate d ''    '') @ class_name c @ (if e then '' [ENABLED]'' else '' [DISABLED]'')"
| "spec_entry d (Category n cs) =
     concat (replicate d ''    '') @ n @ '':'' @ newline @ join_lines (spec_entries (Suc d) cs)"
| "spec_entries d [] = []"
| "spec_entries d (child # rest) = spec_entry d child # spec_entries d rest"

definition spec_dump :: "node list \<Rightarrow> string" where
  "spec_dump cs = join_lines (spec_entries 0 cs)"

section \<open>Example plays and registries\<close>

definition RunAround :: pyclass where
  "RunAround = \<lparr>class_id = 1, class_name = ''RunAround''\<rparr>"

definition PassDrill :: pyclass where
  "PassDrill = \<lparr>class_id = 2, class_name = ''PassDrill''\<rparr>"

definition Kick :: pyclass where
  "Kick = \<lparr>class_id = 3, class_name = ''Kick''\<rparr>"

text \<open>The registry after the two inserts below \<open>demo\<close>.\<close>

definition demo_registry :: PlayRegistry where
  "demo_registry =
     snd (insert_play [''demo'', ''passing'', ''PassDrill''] PassDrill
       (snd (insert_play [''demo'', ''run_around'', ''RunAround''] RunAround PlayRegistry_init)))"

text \<open>The registry after one insert below \<open>solo\<close>, and model indexes of its two nodes.\<close>

definition solo_registry :: PlayRegistry where
  "solo_registry = snd (insert_play [''solo'', ''Kick''] Kick PlayRegistry_init)"

definition kick_index :: QModelIndex where
  "kick_index = \<lparr>isValid = True, row = 0, column = 0, internalPointer = Some [0, 0]\<rparr>"

definition solo_index :: QModelIndex where
  "solo_index = \<lparr>isValid = True, row = 0, column = 0, internalPointer = Some [0]\<rparr>"

text \<open>A category in which two children have the same name.\<close>

definition twins :: "node list" where
  "twins = [Category ''b'' [], Category ''a'' [Node ''kick'' Kick True], Category ''a'' []]"

section \<open>Child lookup\<close>

lemma getitem_loop_index:
  "getitem_loop cs key = map_option (\<lambda>i. cs ! i) (index_of_child cs key)"
  by (induction cs) (auto simp: option.map_comp comp_def)

lemma index_of_child_Some:
  "index_of_child cs key = Some i \<Longrightarrow>
     i < length cs \<and> name (cs ! i) = key \<and> (\<forall>j<i. name (cs ! j) \<noteq> key)"
proof (induction cs arbitrary: i)
  case Nil
  then show ?case by simp
next
  case (Cons child rest)
  show ?case
  proof (cases "name child = key")
    case True
    with Cons.prems show ?thesis by simp
  next
    case False
    with Cons.prems obtain k where k: "index_of_child rest key = Some k" "i = Suc k"
      by auto
    from Cons.IH [OF k(1)] False k(2) show ?thesis
      by (auto simp: less_Suc_eq_0_disj)
  qed
qed

lemma index_of_child_None:
  "index_of_child cs key = None \<longleftrightarrow> (\<forall>child \<in> set cs. name child \<noteq> key)"
  by (induction cs) auto

text \<open>
  Claim C10. For every category and every key, \<^verbatim>\<open>__getitem__\<close> returns \<^verbatim>\<open>None\<close> and
  raises nothing when no child has the key as its name; a child it returns has that name
  and is the first such child of the list; it never raises; and
  \<^verbatim>\<open>has_child_with_name\<close> is true exactly when some child of the list has that name.
\<close>

theorem Category_lookup:
  "((\<forall>child \<in> set cs. name child \<noteq> key) \<longrightarrow> getitem (Category n cs) key = Inr None) \<and>
   (\<forall>child. getitem (Category n cs) key = Inr (Some child) \<longrightarrow>
      (\<exists>i<length cs. cs ! i = child \<and> name child = key \<and> (\<forall>j<i. name (cs ! j) \<noteq> key))) \<and>
   (\<exists>res. getitem (Category n cs) key = Inr res) \<and>
   has_child_with_name (Category n cs) key = Inr (\<exists>child \<in> set cs. name child = key)"
proof -
  have none: "(\<forall>child \<in> set cs. name child \<noteq> key) \<longrightarrow> getitem (Category n cs) key = Inr None"
    by (simp add: getitem_loop_index index_of_child_None)
  have first: "\<forall>child. getitem (Category n cs) key = Inr (Some child) \<longrightarrow>
      (\<exists>i<length cs. cs ! i = child \<and> name child = key \<and> (\<forall>j<i. name (cs ! j) \<noteq> key))"
  proof (intro allI impI)
    fix child
    assume "getitem (Category n cs) key = Inr (Some child)"
    then obtain i where i: "index_of_child cs key = Some i" "child = cs ! i"
      by (auto simp: getitem_loop_index)
    from index_of_child_Some [OF i(1)] i(2) show
      "\<exists>i<length cs. cs ! i = child \<and> name child = key \<and> (\<forall>j<i. name (cs ! j) \<noteq> key)"
      by blast
  qed
  have has: "has_child_with_name (Category n cs) key = Inr (\<exists>child \<in> set cs. name child = key)"
    using index_of_child_None [of cs key] by (auto simp: getitem_loop_index)
  from none first has show ?thesis by simp
qed

theorem Category_lookup_witness:
  "getitem (Category ''plays'' twins) ''zz'' = Inr None \<and>
   getitem (Category ''plays'' twins) ''a'' = Inr (Some (Category ''a'' [Node ''kick'' Kick True])) \<and>
   has_child_with_name (Category ''plays'' twins) ''a'' = Inr True \<and>
   has_child_with_name (Category ''plays'' twins) ''zz'' = Inr False"
  using Category_lookup [of twins "''zz''" "''plays''"]
    Category_lookup [of twins "''a''" "''plays''"]
  by (simp add: twins_def)

section \<open>insert\<close>

lemma str_in_children_False: "\<not> str_in_children s cs"
  by (induction cs) (auto simp: str_in_children_def str_eq_node_def)

lemma index_of_child_appended:
  "\<exists>i. index_of_child (cs @ [Category_init key]) key = Some i \<and> i < Suc (length cs)"
  by (induction cs) (auto simp: Category_init_def)

lemma py_index_last: "p \<noteq> [] \<Longrightarrow> py_index p (- 1) = Inr (last p)"
  by (cases p) (auto simp: py_index_def last_conv_nth nat_add_distrib)

lemma demo_first:
  "insert_play [''demo'', ''run_around'', ''RunAround''] RunAround PlayRegistry_init =
     (None, \<lparr>root = Category '''' [Category ''demo'' [Category ''run_around''
                [Node ''RunAround'' RunAround True]]], dataChanged = []\<rparr>)"
  by (simp add: insert_play_def py_index_def PlayRegistry_init_def Category_init_def
      Node_init_def str_in_children_False)

lemma demo_second:
  "insert_play [''demo'', ''passing'', ''PassDrill''] PassDrill
     (snd (insert_play [''demo'', ''run_around'', ''RunAround''] RunAround PlayRegistry_init)) =
   (None, \<lparr>root = Category ''''
       [Category ''demo''
          [Category ''run_around'' [Node ''RunAround'' RunAround True],
           Category ''passing'' [Node ''PassDrill'' PassDrill True]],
        Category ''demo'' []],
      dataChanged = []\<rparr>)"
  by (subst demo_first)
    (simp add: insert_play_def py_index_def Category_init_def Node_init_def
      str_in_children_False)

lemma demo_registry_value:
  "demo_registry = \<lparr>root = Category ''''
       [Category ''demo''
          [Category ''run_around'' [Node ''RunAround'' RunAround True],
           Category ''passing'' [Node ''PassDrill'' PassDrill True]],
        Category ''demo'' []],
      dataChanged = []\<rparr>"
  by (simp add: demo_registry_def demo_second)

lemma solo_registry_value:
  "solo_registry =
     \<lparr>root = Category '''' [Category ''solo'' [Node ''Kick'' Kick True]], dataChanged = []\<rparr>"
  by (simp add: solo_registry_def insert_play_def py_index_def PlayRegistry_init_def
      Category_init_def Node_init_def str_in_children_False)

text \<open>
  Every step of the loop of \<^verbatim>\<open>insert\<close> appends a category to the current category,
  whether or not a child of that name is there.
\<close>

lemma insert_loop_appends_category:
  "\<exists>cs'. snd (insert_loop (module # rest) playNode (Category n cs)) = Category n cs' \<and>
     length cs' = Suc (length cs)"
proof -
  obtain i where i: "index_of_child (cs @ [Category_init module]) module = Some i"
    using index_of_child_appended [of cs module] by auto
  then show ?thesis
    by (simp add: str_in_children_False Let_def split: prod.splits)
qed

text \<open>
  Claim C1 says that \<^verbatim>\<open>insert\<close> creates a category for a path segment only when the
  current category has no child of that name, so that two paths with a common prefix
  share one category. The module tests \<^verbatim>\<open>module not in category.children\<close>, which
  compares a string with node objects and is always true: a category is appended for every
  segment of every insert, and the walk continues in the first child of that name. After
  the two inserts below \<open>demo\<close> the root has two children named \<open>demo\<close>, the first with
  both sub-categories and the second empty.
\<close>

theorem insert_shared_prefix_duplicates:
  "insert_play [''demo'', ''passing'', ''PassDrill''] PassDrill
     (snd (insert_play [''demo'', ''run_around'', ''RunAround''] RunAround PlayRegistry_init)) =
   (None, \<lparr>root = Category ''''
       [Category ''demo''
          [Category ''run_around'' [Node ''RunAround'' RunAround True],
           Category ''passing'' [Node ''PassDrill'' PassDrill True]],
        Category ''demo'' []],
      dataChanged = []\<rparr>)"
  by (rule demo_second)

lemma leaves_list_append: "leaves_list (xs @ ys) = leaves_list xs @ leaves_list ys"
  by (induction xs) auto

lemma mset_leaves_list_update:
  "i < length cs \<Longrightarrow>
     mset (leaves_list (cs[i := t])) + mset (leaves (cs ! i)) =
     mset (leaves_list cs) + mset (leaves t)"
proof (induction cs arbitrary: i)
  case Nil
  then show ?case by simp
next
  case (Cons child rest)
  then show ?case by (cases i) auto
qed

lemma insert_loop_leaves:
  "mset (leaves (snd (insert_loop ms playNode t))) =
     mset (leaves t) +
       (if fst (insert_loop ms playNode t) = None then mset (leaves playNode) else {#})"
proof (induction ms arbitrary: t)
  case Nil
  then show ?case by (cases t) (auto simp: leaves_list_append)
next
  case (Cons module rest)
  show ?case
  proof (cases t)
    case (Node m c e)
    then show ?thesis by simp
  next
    case (Category n cs)
    define cs' where "cs' = cs @ [Category_init module]"
    obtain i where i: "index_of_child cs' module = Some i" "i < length cs'"
      using index_of_child_appended [of cs module] by (auto simp: cs'_def)
    obtain err child' where r: "insert_loop rest playNode (cs' ! i) = (err, child')"
      by (cases "insert_loop rest playNode (cs' ! i)")
    have res: "insert_loop (module # rest) playNode t = (err, Category n (cs'[i := child']))"
      using Category i r by (simp add: str_in_children_False cs'_def Let_def)
    have "mset (leaves_list (cs'[i := child'])) + mset (leaves (cs' ! i)) =
            mset (leaves_list cs') + mset (leaves child')"
      using i(2) by (rule mset_leaves_list_update)
    moreover have "mset (leaves child') =
        mset (leaves (cs' ! i)) + (if err = None then mset (leaves playNode) else {#})"
      using Cons.IH [of "cs' ! i"] r by simp
    moreover have "leaves_list cs' = leaves_list cs"
      by (simp add: cs'_def leaves_list_append Category_init_def)
    ultimately have "mset (leaves_list (cs'[i := child'])) =
        mset (leaves_list cs) + (if err = None then mset (leaves playNode) else {#})"
      by (simp split: if_splits)
    with res Category show ?thesis by simp
  qed
qed

text \<open>
  Claim C9. Every leaf is enabled when it is created: \<^verbatim>\<open>Node.__init__\<close> sets the flag,
  and for every path, play class and registry an \<^verbatim>\<open>insert\<close> that returns adds to the
  leaves of the tree exactly one leaf, which holds the last path segment and the play
  class and is enabled; an \<^verbatim>\<open>insert\<close> that raises adds no leaf.
\<close>

theorem insert_creates_enabled_leaf:
  "mset (leaves (root (snd (insert_play p cls self)))) =
     mset (leaves (root self)) +
       (if fst (insert_play p cls self) = None then {#Node (last p) cls True#} else {#}) \<and>
   enabled (Node_init m cls)"
proof (cases "p = []")
  case True
  then show ?thesis by (simp add: insert_play_def py_index_def Node_init_def)
next
  case False
  obtain err rt' where r:
    "insert_loop (butlast p) (Node_init (last p) cls) (root self) = (err, rt')"
    by (cases "insert_loop (butlast p) (Node_init (last p) cls) (root self)")
  with insert_loop_leaves [of "butlast p" "Node_init (last p) cls" "root self"] False
  show ?thesis
    by (simp add: insert_play_def py_index_last Node_init_def)
qed

theorem insert_creates_enabled_leaf_witness:
  "fst (insert_play [''solo'', ''Kick''] Kick PlayRegistry_init) = None \<and>
   mset (leaves (root (snd (insert_play [''solo'', ''Kick''] Kick PlayRegistry_init)))) =
     {#Node ''Kick'' Kick True#} \<and>
   fst (insert_play [] Kick PlayRegistry_init) = Some IndexError \<and>
   mset (leaves (root (snd (insert_play [] Kick PlayRegistry_init)))) = {#}"
  using insert_creates_enabled_leaf [of "[''solo'', ''Kick'']" Kick PlayRegistry_init "''Kick''"]
    insert_creates_enabled_leaf [of "[]" Kick PlayRegistry_init "''Kick''"]
  by (simp add: insert_play_def py_index_def PlayRegistry_init_def Category_init_def
      Node_init_def str_in_children_False)

section \<open>delete\<close>

lemma delitem_TypeError: "delitem rt obj key = Inl TypeError"
  by (cases obj) (auto split: option.splits node.splits)

lemma delete_walk_stack:
  "catStack \<noteq> [] \<Longrightarrow>
     delete_walk rt ms catStack = Inl TypeError \<or>
     (\<exists>st. delete_walk rt ms catStack = Inr st \<and> st \<noteq> [])"
proof (induction ms arbitrary: catStack)
  case Nil
  then show ?case by simp
next
  case (Cons module rest)
  from Cons.prems obtain cur where cur: "py_index catStack (- 1) = Inr cur"
    by (cases catStack rule: rev_cases) (auto simp: py_index_def)
  show ?case
  proof (cases "stack_getitem rt cur module")
    case (Inl e)
    then have "e = TypeError"
      by (cases cur) (auto split: option.splits node.splits)
    with Inl cur show ?thesis by simp
  next
    case (Inr child)
    with cur Cons.IH [of "catStack @ [child]"] show ?thesis by simp
  qed
qed

lemma delete_try_TypeError: "delete_try p cls rt = (Some TypeError, rt)"
proof -
  consider "delete_walk rt (butlast p) [Some []] = Inl TypeError"
    | st where "delete_walk rt (butlast p) [Some []] = Inr st" "st \<noteq> []"
    using delete_walk_stack [of "[Some []]" rt "butlast p"] by auto
  then show ?thesis
  proof cases
    case 1
    then show ?thesis by (simp add: delete_try_def)
  next
    case 2
    from 2(2) obtain bottom where "py_index st (- 1) = Inr bottom"
      by (cases st rule: rev_cases) (auto simp: py_index_def)
    with 2(1) show ?thesis by (simp add: delete_try_def delitem_TypeError)
  qed
qed

text \<open>
  Every call of \<^verbatim>\<open>delete\<close> raises \<^verbatim>\<open>TypeError\<close> and leaves the registry as it was:
  the walk either subscripts \<^verbatim>\<open>None\<close> or a \<^verbatim>\<open>Node\<close>, or reaches the \<^verbatim>\<open>del\<close> statement,
  which no object of the module supports.
\<close>

lemma delete_TypeError: "delete p cls self = (Some TypeError, self)"
  by (simp add: delete_def delete_try_TypeError)

text \<open>
  Claim C3 says that \<^verbatim>\<open>delete\<close> raises \<^verbatim>\<open>KeyError\<close> and leaves the tree unchanged when a
  path segment or the final key is not found. The tree is unchanged, but the exception is
  \<^verbatim>\<open>TypeError\<close>: for a missing segment \<^verbatim>\<open>__getitem__\<close> returns \<^verbatim>\<open>None\<close>, which the next
  step subscripts or deletes from, and for a missing key the \<^verbatim>\<open>del\<close> statement fails before
  \<^verbatim>\<open>Category.__del__\<close> could raise its \<^verbatim>\<open>KeyError\<close>. The handler of \<^verbatim>\<open>delete\<close> catches
  \<^verbatim>\<open>KeyError\<close> only. Both cases on the empty registry:
\<close>

theorem delete_missing_raises_TypeError:
  "delete [''never'', ''Kick''] Kick PlayRegistry_init = (Some TypeError, PlayRegistry_init) \<and>
   delete [''Kick''] Kick PlayRegistry_init = (Some TypeError, PlayRegistry_init)"
  by (simp add: delete_TypeError)

text \<open>
  Claim C4 says that \<^verbatim>\<open>delete\<close> removes the leaf and then every category of the stack
  that has become empty. The module removes nothing: \<^verbatim>\<open>del catStack[-1][name]\<close> needs
  \<^verbatim>\<open>__delitem__\<close>, and the class defines its removal under the name \<^verbatim>\<open>__del__\<close>. After
  the insert below \<open>solo\<close>, deleting the same path raises \<^verbatim>\<open>TypeError\<close>, and the root
  still has the child \<open>solo\<close> with its leaf.
\<close>

theorem delete_inserted_raises_TypeError:
  "delete [''solo'', ''Kick''] Kick solo_registry = (Some TypeError, solo_registry) \<and>
   has_child_with_name (root solo_registry) ''solo'' = Inr True \<and>
   leaves (root solo_registry) = [Node ''Kick'' Kick True]"
  by (simp add: delete_TypeError solo_registry_value)

section \<open>Iteration, enabled plays and membership\<close>

text \<open>The generator yields no node and ends with an exception, whatever the tree.\<close>

lemma iteration_yields_nothing:
  "fst (iteration self) = [] \<and> snd (iteration self) \<noteq> None"
  by (cases "root self") (simp_all add: iteration_def call_list_def)

text \<open>
  Claim C2 says that iterating the registry yields exactly the leaves of the tree,
  depth first and in the order of the children. The generator calls the list
  \<^verbatim>\<open>category.children\<close>, so its first step raises \<^verbatim>\<open>TypeError\<close> and it yields nothing,
  for every tree; here for the tree of the two inserts, which has two leaves.
\<close>

theorem iteration_raises_TypeError:
  "iteration demo_registry = ([], Some TypeError) \<and>
   leaves (root demo_registry) =
     [Node ''RunAround'' RunAround True, Node ''PassDrill'' PassDrill True]"
  by (simp add: iteration_def demo_registry_value call_list_def)

text \<open>
  Claim C5 says that \<^verbatim>\<open>get_enabled_plays\<close> returns the play classes of the enabled leaves
  in iteration order. Its comprehension iterates the registry, so the \<^verbatim>\<open>TypeError\<close> of the
  generator leaves it and no list is returned, on the empty registry as on any other.
\<close>

theorem get_enabled_plays_raises_TypeError:
  "get_enabled_plays demo_registry = Inl TypeError \<and>
   get_enabled_plays PlayRegistry_init = Inl TypeError"
  by (simp add: get_enabled_plays_def iteration_def demo_registry_value call_list_def
      PlayRegistry_init_def Category_init_def)

text \<open>
  Claim C7 says that right after \<^verbatim>\<open>insert(p, x)\<close> the test \<^verbatim>\<open>x in registry\<close> is true and
  iteration yields exactly one leaf with that play class. The leaf is in the tree, but
  \<^verbatim>\<open>__contains__\<close> iterates the registry and raises the generator's \<^verbatim>\<open>TypeError\<close>.
\<close>

theorem contains_after_insert_raises_TypeError:
  "contains (snd (insert_play [''demo'', ''run_around'', ''RunAround''] RunAround
       PlayRegistry_init)) RunAround = Inl TypeError \<and>
   leaves (root (snd (insert_play [''demo'', ''run_around'', ''RunAround''] RunAround
       PlayRegistry_init))) = [Node ''RunAround'' RunAround True]"
  by (simp add: contains_def iteration_def demo_first call_list_def)

section \<open>The string form\<close>

lemma butlast_terminated_lines:
  "butlast (concat (map (\<lambda>l. l @ newline) ls)) = join_lines ls"
proof (induction ls rule: join_lines.induct)
  case 1
  then show ?case by simp
next
  case (2 l)
  then show ?case by (simp add: butlast_append)
next
  case (3 l l' ls)
  then show ?case by (simp add: butlast_append)
qed

lemma cat_str_entries:
  "(\<forall>n cs. t = Category n cs \<longrightarrow> cat_str t indent = Inr (join_lines (spec_entries indent cs)))"
  "cat_str_loop ts indent desc =
     Inr (desc @ concat (map (\<lambda>l. l @ newline) (spec_entries indent ts)))"
proof (induction t indent and ts indent desc rule: cat_str_cat_str_loop.induct)
  case (1 m c e indent)
  then show ?case by simp
next
  case (2 n cs indent)
  then show ?case by (simp add: butlast_terminated_lines)
next
  case (3 indent desc)
  then show ?case by simp
next
  case (4 child rest indent desc)
  show ?case
  proof (cases child)
    case (Node m c e)
    with 4 show ?thesis by (simp add: Node_str_def indent_str_def)
  next
    case (Category n cs)
    with 4 show ?thesis by (simp add: indent_str_def)
  qed
qed

text \<open>
  Claim C8. For every registry, whose root is a category, the string form is the two
  header lines followed by the dump of the root's children at depth 0: the entries of the
  children separated by newlines, where a leaf at depth \<open>d\<close> gives \<open>d\<close> times four
  spaces, its display name and \<open>[ENABLED]\<close> or \<open>[DISABLED]\<close>, and a sub-category at depth
  \<open>d\<close> gives \<open>d\<close> times four spaces, its name and a colon, then a newline and the dump of
  its own children at depth \<open>d + 1\<close>.
\<close>

theorem PlayRegistry_str_dump:
  "PlayRegistry_str \<lparr>root = Category n cs, dataChanged = sigs\<rparr> =
     Inr (''PlayRegistry:'' @ newline @ ''-------------'' @ newline @ spec_dump cs)"
  using cat_str_entries(1) [of "Category n cs" 0]
  by (simp add: PlayRegistry_str_def spec_dump_def)

text \<open>The string form of the registry after the two inserts below \<open>demo\<close>.\<close>

lemma PlayRegistry_str_demo:
  "PlayRegistry_str demo_registry =
     Inr (''PlayRegistry:'' @ newline @ ''-------------'' @ newline @
       ''demo:'' @ newline @
       ''    run_around:'' @ newline @
       ''        RunAround [ENABLED]'' @ newline @
       ''    passing:'' @ newline @
       ''        PassDrill [ENABLED]'' @ newline @
       ''demo:'' @ newline)"
  by (simp add: PlayRegistry_str_def demo_registry_value indent_str_def Node_str_def
      RunAround_def PassDrill_def)

section \<open>setData\<close>

lemma node_at_update_at:
  "node_at t r = Some x \<Longrightarrow> node_at (update_at r f t) r = Some (f x)"
proof (induction r arbitrary: t)
  case Nil
  then show ?case by simp
next
  case (Cons i r)
  then show ?case by (cases t) (auto split: if_splits)
qed

lemma update_at_twice:
  "update_at r g (update_at r f t) = update_at r (\<lambda>x. g (f x)) t"
proof (induction r arbitrary: t)
  case Nil
  then show ?case by simp
next
  case (Cons i r)
  then show ?case by (cases t) auto
qed

lemma update_at_fixed:
  "node_at t r = Some x \<Longrightarrow> f x = x \<Longrightarrow> update_at r f t = t"
proof (induction r arbitrary: t)
  case Nil
  then show ?case by simp
next
  case (Cons i r)
  then show ?case by (cases t) (auto split: if_splits)
qed

lemma update_at_other_leaf:
  "node_at t r = Some (Node m c e) \<Longrightarrow> node_at t q = Some (Node m' c' e') \<Longrightarrow> q \<noteq> r \<Longrightarrow>
     node_at (update_at r f t) q = Some (Node m' c' e')"
proof (induction r arbitrary: t q)
  case Nil
  then show ?case by (cases q) auto
next
  case (Cons i r)
  show ?case
  proof (cases t)
    case (Node m0 c0 e0)
    with Cons.prems show ?thesis by simp
  next
    case (Category n cs)
    with Cons.prems have i: "i < length cs" and at_r: "node_at (cs ! i) r = Some (Node m c e)"
      by (auto split: if_splits)
    show ?thesis
    proof (cases q)
      case Nil
      with Cons.prems Category show ?thesis by simp
    next
      case (Cons j q')
      with Cons.prems Category have j: "j < length cs"
        and at_q: "node_at (cs ! j) q' = Some (Node m' c' e')"
        by (auto split: if_splits)
      show ?thesis
      proof (cases "j = i")
        case True
        with Cons Cons.prems have "q' \<noteq> r" by simp
        with Cons.IH [of "cs ! i" q'] at_r at_q True
        have "node_at (update_at r f (cs ! i)) q' = Some (Node m' c' e')" by simp
        with Category Cons True i show ?thesis by simp
      next
        case False
        with Category Cons i j at_q show ?thesis by simp
      qed
    qed
  qed
qed

text \<open>
  Claim C6. The adapter's toggle is \<^verbatim>\<open>setData\<close> with the check state role on a valid
  index. When the index points to a leaf, the call returns \<open>True\<close>, the leaf's flag is
  flipped, every other leaf is as before, and one \<^verbatim>\<open>dataChanged\<close> signal is emitted for
  the range from that index to itself; a second call returns \<open>True\<close> again and the tree
  is the original one. When the index points to a category, the call raises
  \<^verbatim>\<open>AssertionError\<close> and the registry is unchanged.
\<close>

theorem setData_toggle:
  assumes "isValid index" and "internalPointer index = Some r"
  shows "(node_at (root self) r = Some (Node m c e) \<longrightarrow>
            (\<exists>self'. setData index v CheckStateRole self = (Inr True, self') \<and>
               node_at (root self') r = Some (Node m c (\<not> e)) \<and>
               (\<forall>q m' c' e'. q \<noteq> r \<and> node_at (root self) q = Some (Node m' c' e') \<longrightarrow>
                  node_at (root self') q = Some (Node m' c' e')) \<and>
               dataChanged self' = dataChanged self @ [(index, index)] \<and>
               (\<exists>self''. setData index v CheckStateRole self' = (Inr True, self'') \<and>
                  root self'' = root self))) \<and>
         (node_at (root self) r = Some (Category n cs) \<longrightarrow>
            setData index v CheckStateRole self = (Inl AssertionError, self))"
proof (intro conjI impI)
  assume cat: "node_at (root self) r = Some (Category n cs)"
  with assms show "setData index v CheckStateRole self = (Inl AssertionError, self)"
    by (simp add: setData_def)
next
  assume leaf: "node_at (root self) r = Some (Node m c e)"
  define self' where "self' = self\<lparr>root := update_at r toggle_enabled (root self),
                           dataChanged := dataChanged self @ [(index, index)]\<rparr>"
  have step: "setData index v CheckStateRole self = (Inr True, self')"
    using assms leaf by (simp add: setData_def self'_def)
  have flipped: "node_at (root self') r = Some (Node m c (\<not> e))"
    using node_at_update_at [OF leaf, of toggle_enabled] by (simp add: self'_def)
  have frame: "\<forall>q m' c' e'. q \<noteq> r \<and> node_at (root self) q = Some (Node m' c' e') \<longrightarrow>
                  node_at (root self') q = Some (Node m' c' e')"
    using update_at_other_leaf [OF leaf] by (simp add: self'_def)
  have emitted: "dataChanged self' = dataChanged self @ [(index, index)]"
    by (simp add: self'_def)
  define self'' where "self'' = self'\<lparr>root := update_at r toggle_enabled (root self'),
                           dataChanged := dataChanged self' @ [(index, index)]\<rparr>"
  have step': "setData index v CheckStateRole self' = (Inr True, self'')"
    using assms flipped by (simp add: setData_def self''_def)
  have "root self'' = update_at r (\<lambda>x. toggle_enabled (toggle_enabled x)) (root self)"
    by (simp add: self''_def self'_def update_at_twice)
  also have "\<dots> = root self"
    using update_at_fixed [OF leaf, of "\<lambda>x. toggle_enabled (toggle_enabled x)"] by simp
  finally have restored: "root self'' = root self" .
  from step flipped frame emitted step' restored
  show "\<exists>self'. setData index v CheckStateRole self = (Inr True, self') \<and>
               node_at (root self') r = Some (Node m c (\<not> e)) \<and>
               (\<forall>q m' c' e'. q \<noteq> r \<and> node_at (root self) q = Some (Node m' c' e') \<longrightarrow>
                  node_at (root self') q = Some (Node m' c' e')) \<and>
               dataChanged self' = dataChanged self @ [(index, index)] \<and>
               (\<exists>self''. setData index v CheckStateRole self' = (Inr True, self'') \<and>
                  root self'' = root self)"
    by blast
qed

theorem setData_toggle_witness:
  "isValid kick_index \<and> internalPointer kick_index = Some [0, 0] \<and>
   node_at (root solo_registry) [0, 0] = Some (Node ''Kick'' Kick True) \<and>
   setData kick_index () CheckStateRole solo_registry =
     (Inr True,
      \<lparr>root = Category '''' [Category ''solo'' [Node ''Kick'' Kick False]],
       dataChanged = [(kick_index, kick_index)]\<rparr>) \<and>
   setData kick_index () CheckStateRole
     \<lparr>root = Category '''' [Category ''solo'' [Node ''Kick'' Kick False]],
      dataChanged = [(kick_index, kick_index)]\<rparr> =
     (Inr True,
      \<lparr>root = root solo_registry,
       dataChanged = [(kick_index, kick_index), (kick_index, kick_index)]\<rparr>) \<and>
   isValid solo_index \<and> internalPointer solo_index = Some [0] \<and>
   node_at (root solo_registry) [0] = Some (Category ''solo'' [Node ''Kick'' Kick True]) \<and>
   setData solo_index () CheckStateRole solo_registry = (Inl AssertionError, solo_registry)"
proof -
  have kick: "isValid kick_index" "internalPointer kick_index = Some [0, 0]"
    by (simp_all add: kick_index_def)
  have solo: "isValid solo_index" "internalPointer solo_index = Some [0]"
    by (simp_all add: solo_index_def)
  have leaf: "node_at (root solo_registry) [0, 0] = Some (Node ''Kick'' Kick True)"
    by (simp add: solo_registry_value)
  have cat: "node_at (root solo_registry) [0] = Some (Category ''solo'' [Node ''Kick'' Kick True])"
    by (simp add: solo_registry_value)
  from setData_toggle [OF kick, of solo_registry "''Kick''" Kick True "()"] leaf
    setData_toggle [OF solo, of solo_registry _ _ _ "()" "''solo''" "[Node ''Kick'' Kick True]"] cat
  show ?thesis
    using kick solo by (simp add: setData_def solo_registry_value)
qed

end
